theory Spec2Isabelle
  imports Complex_Main "HOL-Library.Log_Nat"
begin

section \<open>Data model (types.ts)\<close>

text \<open>
  JavaScript numbers are modelled as real numbers, and their arithmetic as real
  arithmetic, with one exception: the scale stage, where rounding decides an integer
  size and a branch, computes in IEEE doubles (section \<open>Doubles\<close> below). The fields
  \<open>x\<close> and \<open>y\<close> of a \<open>Point\<close> are named \<open>px\<close> and \<open>py\<close>, so that \<open>x\<close> and \<open>y\<close>
  stay available as variables.
\<close>

record Point =
  px :: real
  py :: real

datatype AppStep = UPLOAD | ROTATE | SCALE | CROP | RESULT

record ProcessingOptions =
  assumeEqualTilt :: bool
  assumeEqualZoom :: bool
  assumeEqualFraming :: bool
  rotateLeftImage :: bool

text \<open>The string literals \<open>'left'\<close> and \<open>'right'\<close> that tag a side.\<close>

datatype Side = LeftSide | RightSide

section \<open>Doubles\<close>

text \<open>
  A JavaScript number: a finite double, given by its real value, an infinity, or \<open>NaN\<close>.
  The two zeros are not told apart.
\<close>

datatype jsnum = Fin real | PosInf | NegInf | NaN

text \<open>Rounding to the nearest integer, a tie going to the even one.\<close>

definition roundHalfEven :: "real \<Rightarrow> int" where
  "roundHalfEven y =
    (let f = \<lfloor>y\<rfloor>;
         r = y - real_of_int f
     in if r < 1 / 2 then f
        else if 1 / 2 < r then f + 1
        else if even f then f else f + 1)"

text \<open>
  The binary exponent of a nonzero real \<open>x\<close>: the \<open>e\<close> with \<open>2 ^ e \<le> \<bar>x\<bar> < 2 ^ (e + 1)\<close>,
  computed from the number of bits of an integer (lemma \<open>binade_bounds\<close>).
\<close>

definition binade :: "real \<Rightarrow> int" where
  "binade x = (if 1 \<le> \<bar>x\<bar> then bitlen \<lfloor>\<bar>x\<bar>\<rfloor> - 1 else - bitlen (\<lceil>1 / \<bar>x\<bar>\<rceil> - 1))"

text \<open>
  The double that a real result is rounded to (IEEE 754 binary64, round to nearest, ties
  to even): 53 significant bits, the exponent at least \<open>-1022\<close> (below it the doubles are
  evenly spaced), and an infinity when the rounded magnitude reaches \<open>2 ^ 1024\<close>.
\<close>

definition toDouble :: "real \<Rightarrow> jsnum" where
  "toDouble x =
    (if x = 0 then Fin 0
     else
       let e = max (binade x) (- 1022);
           ulp = 2 powi (e - 52);
           r = real_of_int (roundHalfEven (x / ulp)) * ulp
       in if 2 ^ 1024 \<le> r then PosInf
          else if r \<le> - (2 ^ 1024) then NegInf
          else Fin r)"

text \<open>
  The operators \<open>-\<close>, \<open>/\<close>, \<open>*\<close> and \<open><\<close> and the functions \<open>Math.abs\<close> and \<open>Math.ceil\<close> of
  ECMAScript on such numbers. A zero divisor counts as positive zero.
\<close>

fun js_sub :: "jsnum \<Rightarrow> jsnum \<Rightarrow> jsnum" where
  "js_sub NaN b = NaN"
| "js_sub a NaN = NaN"
| "js_sub (Fin a) (Fin b) = toDouble (a - b)"
| "js_sub (Fin a) PosInf = NegInf"
| "js_sub (Fin a) NegInf = PosInf"
| "js_sub PosInf PosInf = NaN"
| "js_sub PosInf b = PosInf"
| "js_sub NegInf NegInf = NaN"
| "js_sub NegInf b = NegInf"

fun js_abs :: "jsnum \<Rightarrow> jsnum" where
  "js_abs (Fin a) = Fin \<bar>a\<bar>"
| "js_abs PosInf = PosInf"
| "js_abs NegInf = PosInf"
| "js_abs NaN = NaN"

fun js_div :: "jsnum \<Rightarrow> jsnum \<Rightarrow> jsnum" where
  "js_div NaN b = NaN"
| "js_div a NaN = NaN"
| "js_div (Fin a) (Fin b) =
     (if b = 0 then (if a = 0 then NaN else if 0 < a then PosInf else NegInf)
      else toDouble (a / b))"
| "js_div (Fin a) b = Fin 0"
| "js_div PosInf (Fin b) = (if 0 \<le> b then PosInf else NegInf)"
| "js_div NegInf (Fin b) = (if 0 \<le> b then NegInf else PosInf)"
| "js_div a b = NaN"

fun js_mul :: "jsnum \<Rightarrow> jsnum \<Rightarrow> jsnum" where
  "js_mul NaN b = NaN"
| "js_mul a NaN = NaN"
| "js_mul (Fin a) (Fin b) = toDouble (a * b)"
| "js_mul (Fin a) PosInf = (if a = 0 then NaN else if 0 < a then PosInf else NegInf)"
| "js_mul (Fin a) NegInf = (if a = 0 then NaN else if 0 < a then NegInf else PosInf)"
| "js_mul PosInf (Fin b) = (if b = 0 then NaN else if 0 < b then PosInf else NegInf)"
| "js_mul NegInf (Fin b) = (if b = 0 then NaN else if 0 < b then NegInf else PosInf)"
| "js_mul PosInf PosInf = PosInf"
| "js_mul PosInf NegInf = NegInf"
| "js_mul NegInf PosInf = NegInf"
| "js_mul NegInf NegInf = PosInf"

fun js_lt :: "jsnum \<Rightarrow> jsnum \<Rightarrow> bool" where
  "js_lt NaN b = False"
| "js_lt a NaN = False"
| "js_lt (Fin a) (Fin b) = (a < b)"
| "js_lt a NegInf = False"
| "js_lt NegInf b = True"
| "js_lt PosInf b = False"
| "js_lt (Fin a) PosInf = True"

fun js_ceil :: "jsnum \<Rightarrow> jsnum" where
  "js_ceil (Fin a) = Fin (real_of_int \<lceil>a\<rceil>)"
| "js_ceil a = a"

text \<open>
  The integer a number stands for where the platform expects one: the number cut off
  towards zero, and 0 for an infinity and for \<open>NaN\<close>.
\<close>

fun integerPart :: "jsnum \<Rightarrow> int" where
  "integerPart (Fin a) = (if a < 0 then - \<lfloor>- a\<rfloor> else \<lfloor>a\<rfloor>)"
| "integerPart a = 0"

section \<open>Canvases\<close>

text \<open>
  An \<open>HTMLCanvasElement\<close> is an object: two canvases with the same pixels are still two
  objects. A canvas therefore carries the identity \<open>ident\<close> that
  \<open>document.createElement\<close> gave it, its \<open>width\<close> and \<open>height\<close>, and the calls made on
  its 2D context, in order. No function of the program draws on a canvas after returning
  it, so a canvas value is a faithful snapshot of the object. The rasterisation the
  browser performs for each call is not modelled; the calls and their arguments are.
\<close>

datatype ctx_op =
    DrawImage nat real real
    \<comment> \<open>\<open>drawImage(source, dx, dy)\<close>, the source named by its identity\<close>
  | DrawImageScaled nat real real jsnum jsnum
    \<comment> \<open>\<open>drawImage(source, dx, dy, dw, dh)\<close>\<close>
  | DrawImageSub nat real real real real real real real real
    \<comment> \<open>\<open>drawImage(source, sx, sy, sw, sh, dx, dy, dw, dh)\<close>\<close>
  | Translate real real
  | Rotate real
  | FillStyle string
  | FillRect real real real real

record canvas =
  ident :: nat
  width :: int
  height :: int
  drawn :: "ctx_op list"

text \<open>
  \<open>document.createElement('canvas')\<close>: the argument is the number of canvases created
  so far, which becomes the identity of the new one; a new canvas is 300 by 150 and
  blank. The result is the canvas and the next counter.
\<close>

definition createElement :: "nat \<Rightarrow> canvas \<times> nat" where
  "createElement d = (\<lparr>ident = d, width = 300, height = 150, drawn = []\<rparr>, Suc d)"

text \<open>A call on the canvas's 2D context.\<close>

definition ctx_call :: "ctx_op \<Rightarrow> canvas \<Rightarrow> canvas" where
  "ctx_call c canvas = canvas\<lparr>drawn := drawn canvas @ [c]\<rparr>"

text \<open>
  Assigning to \<open>canvas.width\<close> or \<open>canvas.height\<close>. Both are attributes of type
  \<open>unsigned long\<close> that reflect a content attribute with a default (300 and 150): the
  integer assigned is taken modulo \<open>2 ^ 32\<close>, and a result above 2147483647 is replaced
  by the default. \<open>canvasSize dflt v\<close> is what the canvas holds after \<open>v\<close> was assigned.
\<close>

definition canvasSize :: "int \<Rightarrow> int \<Rightarrow> int" where
  "canvasSize dflt v = (let u = v mod 4294967296 in if u \<le> 2147483647 then u else dflt)"

definition setWidth :: "int \<Rightarrow> canvas \<Rightarrow> canvas" where
  "setWidth v canvas = canvas\<lparr>width := canvasSize 300 v\<rparr>"

definition setHeight :: "int \<Rightarrow> canvas \<Rightarrow> canvas" where
  "setHeight v canvas = canvas\<lparr>height := canvasSize 150 v\<rparr>"

text \<open>The sizes a canvas can hold.\<close>

definition domCanvas :: "canvas \<Rightarrow> bool" where
  "domCanvas c =
    (0 \<le> width c \<and> width c \<le> 2147483647 \<and> 0 \<le> height c \<and> height c \<le> 2147483647)"

text \<open>
  \<open>getContext('2d')\<close> on a canvas that has no context yet returns a context (the HTML
  standard returns \<open>null\<close> only for a canvas already bound to another kind of context),
  and every canvas below is fresh when its context is requested. The branches
  \<open>if (!ctx)\<close> of the source are therefore unreachable and have no counterpart here.
\<close>

section \<open>Geometry (services/imageService.ts)\<close>

definition cloneCanvas :: "nat \<Rightarrow> canvas \<Rightarrow> real \<Rightarrow> real \<Rightarrow> canvas \<times> nat" where
  "cloneCanvas d source w h =
    (let (canvas, d') = createElement d;
         canvas = setWidth \<lfloor>w\<rfloor> canvas;
         canvas = setHeight \<lfloor>h\<rfloor> canvas;
         canvas = ctx_call (DrawImage (ident source) 0 0) canvas
     in (canvas, d'))"

text \<open>
  \<open>Math.atan2(y, x)\<close> on finite numbers, as ECMAScript specifies it: the angle of the
  point \<open>(x, y)\<close> in \<open>(-\<pi>, \<pi>]\<close>, and \<open>0\<close> at the origin.
\<close>

definition atan2 :: "real \<Rightarrow> real \<Rightarrow> real" where
  "atan2 y x =
    (if 0 < x then arctan (y / x)
     else if x < 0 then (if 0 \<le> y then arctan (y / x) + pi else arctan (y / x) - pi)
     else if 0 < y then pi / 2
     else if y < 0 then - (pi / 2)
     else 0)"

definition calculateAngle :: "Point \<Rightarrow> Point \<Rightarrow> real" where
  "calculateAngle p1 p2 = atan2 (py p2 - py p1) (px p2 - px p1) * (180 / pi)"

text \<open>
  \<open>Math.atan2\<close>, \<open>Math.cos\<close> and \<open>Math.sin\<close> are approximations that ECMAScript leaves to
  the implementation; angles and the rotation are computed in real arithmetic.
\<close>

definition rotateImage :: "nat \<Rightarrow> canvas \<Rightarrow> real \<Rightarrow> canvas \<times> nat" where
  "rotateImage d source angleDegrees =
    (if \<bar>angleDegrees\<bar> < 0.01
     then cloneCanvas d source (real_of_int (width source)) (real_of_int (height source))
     else
       let angleRad = (angleDegrees * pi) / 180;
           absCos = \<bar>cos angleRad\<bar>;
           absSin = \<bar>sin angleRad\<bar>;
           newWidth = \<lceil>real_of_int (width source) * absCos + real_of_int (height source) * absSin\<rceil>;
           newHeight = \<lceil>real_of_int (width source) * absSin + real_of_int (height source) * absCos\<rceil>;
           (canvas, d') = createElement d;
           canvas = setWidth newWidth canvas;
           canvas = setHeight newHeight canvas;
           canvas = ctx_call (Translate (real_of_int newWidth / 2) (real_of_int newHeight / 2)) canvas;
           canvas = ctx_call (Rotate angleRad) canvas;
           canvas = ctx_call (DrawImage (ident source)
                      (- real_of_int (width source) / 2) (- real_of_int (height source) / 2)) canvas
       in (canvas, d'))"

text \<open>
  \<open>scaleImage\<close> computes in doubles: its argument is a JavaScript number, \<open>0.001\<close> is
  the double nearest to 1/1000, and a width, being an integer below \<open>2 ^ 32\<close>, is a
  double as it is.
\<close>

definition scaleImage :: "nat \<Rightarrow> canvas \<Rightarrow> jsnum \<Rightarrow> canvas \<times> nat" where
  "scaleImage d source scale =
    (if js_lt (js_abs (js_sub scale (Fin 1))) (toDouble (1 / 1000))
     then cloneCanvas d source (real_of_int (width source)) (real_of_int (height source))
     else
       let newWidth = js_ceil (js_mul (Fin (real_of_int (width source))) scale);
           newHeight = js_ceil (js_mul (Fin (real_of_int (height source))) scale);
           (canvas, d') = createElement d;
           canvas = setWidth (integerPart newWidth) canvas;
           canvas = setHeight (integerPart newHeight) canvas;
           canvas = ctx_call (DrawImageScaled (ident source) 0 0 newWidth newHeight) canvas
       in (canvas, d'))"

text \<open>
  The local function \<open>createCropped\<close> of \<open>cropImagesAligned\<close>; the variables it closes
  over (\<open>cropLeft\<close>, \<open>cropTop\<close>, \<open>finalWidth\<close>, \<open>finalHeight\<close>) are its first arguments.
\<close>

definition createCropped ::
  "int \<Rightarrow> int \<Rightarrow> int \<Rightarrow> int \<Rightarrow> nat \<Rightarrow> canvas \<Rightarrow> Point \<Rightarrow> canvas \<times> nat" where
  "createCropped cropLeft cropTop finalWidth finalHeight d source anchor =
    (let (canvas, d') = createElement d;
         canvas = setWidth finalWidth canvas;
         canvas = setHeight finalHeight canvas;
         srcX = \<lfloor>px anchor - real_of_int cropLeft\<rfloor>;
         srcY = \<lfloor>py anchor - real_of_int cropTop\<rfloor>;
         canvas = ctx_call (DrawImageSub (ident source)
                    (real_of_int srcX) (real_of_int srcY)
                    (real_of_int finalWidth) (real_of_int finalHeight)
                    0 0
                    (real_of_int finalWidth) (real_of_int finalHeight)) canvas
     in (canvas, d'))"

text \<open>The result is the pair \<open>{left, right}\<close> and the next counter.\<close>

definition cropImagesAligned ::
  "nat \<Rightarrow> canvas \<Rightarrow> canvas \<Rightarrow> Point \<Rightarrow> Point \<Rightarrow> bool \<Rightarrow> (canvas \<times> canvas) \<times> nat" where
  "cropImagesAligned d left right pL pR equalZoom =
    (let L_left = px pL;
         R_left = px pR;
         cropLeft = \<lfloor>min L_left R_left\<rfloor>;
         L_right = real_of_int (width left) - px pL;
         R_right = real_of_int (width right) - px pR;
         cropRight = \<lfloor>min L_right R_right\<rfloor>;
         L_top = py pL;
         R_top = py pR;
         L_bottom = real_of_int (height left) - py pL;
         R_bottom = real_of_int (height right) - py pR;
         cropTop = \<lfloor>min L_top R_top\<rfloor>;
         cropBottom = \<lfloor>min L_bottom R_bottom\<rfloor>;
         finalWidth = cropLeft + cropRight;
         finalHeight = cropTop + cropBottom;
         (l, d1) = createCropped cropLeft cropTop finalWidth finalHeight d left pL;
         (r, d2) = createCropped cropLeft cropTop finalWidth finalHeight d1 right pR
     in ((l, r), d2))"

definition mergeSideBySide :: "nat \<Rightarrow> canvas \<Rightarrow> canvas \<Rightarrow> canvas \<times> nat" where
  "mergeSideBySide d left right =
    (let (canvas, d') = createElement d;
         leftW = \<lfloor>real_of_int (width left)\<rfloor>;
         leftH = \<lfloor>real_of_int (height left)\<rfloor>;
         rightW = \<lfloor>real_of_int (width right)\<rfloor>;
         rightH = \<lfloor>real_of_int (height right)\<rfloor>;
         canvas = setWidth (leftW + rightW) canvas;
         canvas = setHeight (max leftH rightH) canvas;
         canvas = ctx_call (FillStyle ''#000'') canvas;
         canvas = ctx_call (FillRect 0 0 (real_of_int (width canvas)) (real_of_int (height canvas))) canvas;
         yL = \<lfloor>real_of_int (height canvas - leftH) / 2\<rfloor>;
         yR = \<lfloor>real_of_int (height canvas - rightH) / 2\<rfloor>;
         canvas = ctx_call (DrawImage (ident left) 0 (real_of_int yL)) canvas;
         canvas = ctx_call (DrawImage (ident right) (real_of_int leftW) (real_of_int yR)) canvas
     in (canvas, d'))"

section \<open>The application state and its handlers (App.tsx)\<close>

text \<open>
  The state of the \<open>App\<close> component: one field per \<open>useState\<close> hook the handlers below
  touch, the counter of canvases created so far (\<open>created\<close>), and the messages shown by
  \<open>alert\<close>, oldest first. A handler runs on the state of the last render and its
  \<open>set...\<close> calls give the state of the next one.
\<close>

record App =
  step :: AppStep
  srcL :: "canvas option"
  srcR :: "canvas option"
  canvasL :: "canvas option"
  canvasR :: "canvas option"
  pointsL :: "Point list"
  pointsR :: "Point list"
  pointHistory :: "Side list"
  options :: ProcessingOptions
  resultCanvas :: "canvas option"
  created :: nat
  alerts :: "string list"

text \<open>The state of the first render.\<close>

definition initialApp :: App where
  "initialApp =
    \<lparr>step = UPLOAD, srcL = None, srcR = None, canvasL = None, canvasR = None,
     pointsL = [], pointsR = [], pointHistory = [],
     options = \<lparr>assumeEqualTilt = False, assumeEqualZoom = False,
                assumeEqualFraming = False, rotateLeftImage = False\<rparr>,
     resultCanvas = None, created = 0, alerts = []\<rparr>"

definition handleAddPoint :: "Side \<Rightarrow> Point \<Rightarrow> App \<Rightarrow> App" where
  "handleAddPoint side p s =
    (let s = (if side = LeftSide then s\<lparr>pointsL := pointsL s @ [p]\<rparr>
              else s\<lparr>pointsR := pointsR s @ [p]\<rparr>)
     in s\<lparr>pointHistory := pointHistory s @ [side]\<rparr>)"

text \<open>\<open>xs.slice(0, -1)\<close> is \<open>butlast xs\<close>, also on the empty array.\<close>

definition undoLastPoint :: "App \<Rightarrow> App" where
  "undoLastPoint s =
    (if length (pointHistory s) = 0 then s
     else
       let lastSide = pointHistory s ! (length (pointHistory s) - 1);
           newHistory = butlast (pointHistory s);
           s' = s\<lparr>pointHistory := newHistory\<rparr>
       in if lastSide = LeftSide then s'\<lparr>pointsL := butlast (pointsL s')\<rparr>
          else s'\<lparr>pointsR := butlast (pointsR s')\<rparr>)"

definition clearPoints :: "App \<Rightarrow> App" where
  "clearPoints s = s\<lparr>pointsL := [], pointsR := [], pointHistory := []\<rparr>"

definition startProcessing :: "App \<Rightarrow> App" where
  "startProcessing s =
    (case (srcL s, srcR s) of
       (Some sl, Some sr) \<Rightarrow>
         if assumeEqualFraming (options s) then
           let (merged, d') = mergeSideBySide (created s) sl sr
           in s\<lparr>resultCanvas := Some merged, step := RESULT, created := d'\<rparr>
         else
           let s' = (if assumeEqualTilt (options s)
                     then (if assumeEqualZoom (options s) then s\<lparr>step := CROP\<rparr>
                           else s\<lparr>step := SCALE\<rparr>)
                     else s\<lparr>step := ROTATE\<rparr>)
           in clearPoints s'
     | _ \<Rightarrow> s)"

definition applyRotation :: "App \<Rightarrow> App" where
  "applyRotation s =
    (case (canvasL s, canvasR s) of
       (Some cL, Some cR) \<Rightarrow>
         if length (pointsL s) < 2 \<or> length (pointsR s) < 2 then s
         else
           let angleL = calculateAngle (pointsL s ! 0) (pointsL s ! 1);
               angleR = calculateAngle (pointsR s ! 0) (pointsR s ! 1);
               diff = angleL - angleR;
               (nextL, nextR, d') =
                 (if rotateLeftImage (options s)
                  then let rotation = angleR - angleL;
                           (c, d') = rotateImage (created s) cL rotation
                       in (c, cR, d')
                  else let (c, d') = rotateImage (created s) cR diff
                       in (cL, c, d'));
               s' = s\<lparr>canvasL := Some nextL, canvasR := Some nextR, created := d'\<rparr>;
               s' = clearPoints s'
           in if assumeEqualZoom (options s) then s'\<lparr>step := CROP\<rparr>
              else s'\<lparr>step := SCALE\<rparr>
     | _ \<Rightarrow> s)"

text \<open>The scale stage computes the two distances and their ratio in doubles.\<close>

definition applyScaling :: "App \<Rightarrow> App" where
  "applyScaling s =
    (case (canvasL s, canvasR s) of
       (Some cL, Some cR) \<Rightarrow>
         if length (pointsL s) < 2 \<or> length (pointsR s) < 2 then s
         else
           let hL = js_abs (js_sub (Fin (py (pointsL s ! 0))) (Fin (py (pointsL s ! 1))));
               hR = js_abs (js_sub (Fin (py (pointsR s ! 0))) (Fin (py (pointsR s ! 1))))
           in if hL = Fin 0 \<or> hR = Fin 0
              then s\<lparr>alerts := alerts s @ [''Vertical distance cannot be zero!'']\<rparr>
              else
                let nextL = cL;
                    ratio = js_div hL hR;
                    (nextR, d') = scaleImage (created s) cR ratio;
                    s' = s\<lparr>canvasL := Some nextL, canvasR := Some nextR, created := d'\<rparr>;
                    s' = clearPoints s'
                in s'\<lparr>step := CROP\<rparr>
     | _ \<Rightarrow> s)"

definition applyCropping :: "App \<Rightarrow> App" where
  "applyCropping s =
    (case (canvasL s, canvasR s) of
       (Some cL, Some cR) \<Rightarrow>
         if length (pointsL s) < 1 \<or> length (pointsR s) < 1 then s
         else
           let ((left, right), d1) =
                 cropImagesAligned (created s) cL cR (pointsL s ! 0) (pointsR s ! 0)
                   (assumeEqualZoom (options s));
               s' = s\<lparr>canvasL := Some left, canvasR := Some right\<rparr>;
               (merged, d2) = mergeSideBySide d1 left right
           in s'\<lparr>resultCanvas := Some merged, step := RESULT, created := d2\<rparr>
     | _ \<Rightarrow> s)"

section \<open>The viewport (components/InteractiveCanvas.tsx)\<close>

text \<open>The part of \<open>getBoundingClientRect()\<close> that \<open>fitToContainer\<close> reads.\<close>

record Rect =
  rect_width :: real
  rect_height :: real

text \<open>The hooks \<open>scale\<close>, \<open>offset\<close> and \<open>initialized\<close> of one \<open>InteractiveCanvas\<close>.\<close>

record ViewState =
  scale :: real
  offset :: Point
  initialized :: bool

text \<open>
  \<open>fitToContainer\<close>, with the \<open>image\<close> property (here \<open>img\<close>) and \<open>containerRef.current\<close> (by its
  rectangle) as arguments. A canvas has a width and a height of at least zero, and
  dividing by a width or height of zero gives \<open>Infinity\<close> in JavaScript, which is no
  real number: the result is \<open>None\<close> there, and \<open>Some\<close> of the next state everywhere
  else.
\<close>

definition fitToContainer :: "canvas option \<Rightarrow> Rect option \<Rightarrow> ViewState \<Rightarrow> ViewState option" where
  "fitToContainer img container v =
    (case (img, container) of
       (Some im, Some rect) \<Rightarrow>
         let w = rect_width rect;
             h = rect_height rect
         in if w = 0 \<or> h = 0 then Some v
            else if width im = 0 \<or> height im = 0 then None
            else
              let scaleW = w / real_of_int (width im);
                  scaleH = h / real_of_int (height im);
                  startScale = min scaleW scaleH * 0.95;
                  displayW = real_of_int (width im) * startScale;
                  displayH = real_of_int (height im) * startScale
              in Some (v\<lparr>scale := startScale,
                         offset := \<lparr>px = (w - displayW) / 2, py = (h - displayH) / 2\<rparr>,
                         initialized := True\<rparr>)
     | _ \<Rightarrow> Some v)"

section \<open>Notions used to state the properties\<close>

subsection \<open>Sequences of point-collector operations\<close>

text \<open>
  The three operations on the points and their history, and the state reached from the
  first render by a sequence of them.
\<close>

datatype pc_op = AddPoint Side Point | UndoLast | ClearAll

fun pc_step :: "App \<Rightarrow> pc_op \<Rightarrow> App" where
  "pc_step s (AddPoint side p) = handleAddPoint side p s"
| "pc_step s UndoLast = undoLastPoint s"
| "pc_step s ClearAll = clearPoints s"

definition pc_run :: "pc_op list \<Rightarrow> App" where
  "pc_run ops = foldl pc_step initialApp ops"

text \<open>
  The chronological record of the points that a sequence of operations leaves: each
  point with its side, oldest first. Adding appends, undoing drops the most recent
  entry, clearing drops all. \<open>pointsOf side\<close> reads one side's points off the record.
\<close>

fun log_step :: "(Side \<times> Point) list \<Rightarrow> pc_op \<Rightarrow> (Side \<times> Point) list" where
  "log_step l (AddPoint side p) = l @ [(side, p)]"
| "log_step l UndoLast = butlast l"
| "log_step l ClearAll = []"

definition chronology :: "pc_op list \<Rightarrow> (Side \<times> Point) list" where
  "chronology ops = foldl log_step [] ops"

definition pointsOf :: "Side \<Rightarrow> (Side \<times> Point) list \<Rightarrow> Point list" where
  "pointsOf side l = map snd (filter (\<lambda>e. fst e = side) l)"

subsection \<open>Angles modulo a full turn\<close>

text \<open>Two angles in degrees are congruent when they differ by a multiple of 360.\<close>

definition cong360 :: "real \<Rightarrow> real \<Rightarrow> bool" where
  "cong360 a b = (frac ((a - b) / 360) = 0)"

subsection \<open>Where a source point is shown in a cropped canvas\<close>



subsection \<open>Example states\<close>

text \<open>
  Two loaded images, a left one of 100 by 100 and a right one of 120 by 100, and the
  state in which both are the sources and the working pair, at a given stage, with
  given options and points (the left points recorded before the right ones).
\<close>

definition imgL :: canvas where
  "imgL = \<lparr>ident = 0, width = 100, height = 100, drawn = []\<rparr>"

definition imgR :: canvas where
  "imgR = \<lparr>ident = 1, width = 120, height = 100, drawn = []\<rparr>"

definition opts :: "bool \<Rightarrow> bool \<Rightarrow> bool \<Rightarrow> bool \<Rightarrow> ProcessingOptions" where
  "opts tilt zoom framing rotL =
    \<lparr>assumeEqualTilt = tilt, assumeEqualZoom = zoom, assumeEqualFraming = framing,
     rotateLeftImage = rotL\<rparr>"

definition atStage :: "AppStep \<Rightarrow> ProcessingOptions \<Rightarrow> Point list \<Rightarrow> Point list \<Rightarrow> App" where
  "atStage st os pl pr =
    initialApp\<lparr>step := st, srcL := Some imgL, srcR := Some imgR,
               canvasL := Some imgL, canvasR := Some imgR,
               pointsL := pl, pointsR := pr,
               pointHistory := replicate (length pl) LeftSide @ replicate (length pr) RightSide,
               options := os, created := 2\<rparr>"

definition pt :: "real \<Rightarrow> real \<Rightarrow> Point" where
  "pt x y = \<lparr>px = x, py = y\<rparr>"

section \<open>Properties of the point collector\<close>

lemma pointsOf_snoc:
  "pointsOf side (l @ [(sd, p)]) = (if sd = side then pointsOf side l @ [p] else pointsOf side l)"
  by (simp add: pointsOf_def)

lemma pointsOf_Nil: "pointsOf side [] = []"
  by (simp add: pointsOf_def)

lemma undoLastPoint_snoc:
  "pointHistory s = h @ [sd] \<Longrightarrow>
   undoLastPoint s =
     (if sd = LeftSide then s\<lparr>pointHistory := h, pointsL := butlast (pointsL s)\<rparr>
      else s\<lparr>pointHistory := h, pointsR := butlast (pointsR s)\<rparr>)"
  by (simp add: undoLastPoint_def Let_def nth_append)

lemma undoLastPoint_empty: "pointHistory s = [] \<Longrightarrow> undoLastPoint s = s"
  by (simp add: undoLastPoint_def)

lemma pc_run_snoc: "pc_run (ops @ [c]) = pc_step (pc_run ops) c"
  by (simp add: pc_run_def)

lemma chronology_snoc: "chronology (ops @ [c]) = log_step (chronology ops) c"
  by (simp add: chronology_def)

text \<open>
  The state reached by a sequence of operations holds exactly the chronological record:
  the history is the record's sides, and each side's points are the record's points of
  that side, in order.
\<close>

lemma pc_run_refines:
  "pointHistory (pc_run ops) = map fst (chronology ops) \<and>
   pointsL (pc_run ops) = pointsOf LeftSide (chronology ops) \<and>
   pointsR (pc_run ops) = pointsOf RightSide (chronology ops)"
proof (induction ops rule: rev_induct)
  case Nil
  show ?case by (simp add: pc_run_def chronology_def initialApp_def pointsOf_Nil)
next
  case (snoc c ops)
  show ?case
  proof (cases c)
    case (AddPoint side p)
    with snoc show ?thesis
      by (cases side) (simp_all add: pc_run_snoc chronology_snoc handleAddPoint_def pointsOf_snoc)
  next
    case ClearAll
    then show ?thesis
      by (simp add: pc_run_snoc chronology_snoc clearPoints_def pointsOf_Nil)
  next
    case UndoLast
    show ?thesis
    proof (cases "chronology ops" rule: rev_cases)
      case Nil
      with snoc UndoLast show ?thesis
        by (simp add: pc_run_snoc chronology_snoc undoLastPoint_empty)
    next
      case (snoc l e)
      obtain sd p where e: "e = (sd, p)" by (cases e)
      have h: "pointHistory (pc_run ops) = map fst l @ [sd]"
        using snoc.IH snoc e by simp
      show ?thesis
        using snoc.IH snoc e UndoLast undoLastPoint_snoc [OF h]
        by (cases sd) (simp_all add: pc_run_snoc chronology_snoc pointsOf_snoc)
    qed
  qed
qed

lemma length_pointsOf: "length (pointsOf LeftSide l) + length (pointsOf RightSide l) = length l"
proof (induction l)
  case Nil
  show ?case by (simp add: pointsOf_def)
next
  case (Cons e l)
  obtain sd p where "e = (sd, p)" by (cases e)
  with Cons show ?case by (cases sd) (simp_all add: pointsOf_def)
qed

text \<open>
  Claim C7. In every state reached from the first render by adding points, undoing and
  clearing, the history is as long as the two point lists together. Undoing removes
  exactly the chronologically most recent point: the history and both point lists are
  then those of the chronological record without its last entry. Undoing changes
  nothing when the history is empty. Adding a left, a right and a left point and undoing
  once leaves the first left point and the right point.
\<close>

theorem pointCollector_undo_history:
  "length (pointHistory (pc_run ops)) = length (pointsL (pc_run ops)) + length (pointsR (pc_run ops))
   \<and> pointHistory (undoLastPoint (pc_run ops)) = map fst (butlast (chronology ops))
   \<and> pointsL (undoLastPoint (pc_run ops)) = pointsOf LeftSide (butlast (chronology ops))
   \<and> pointsR (undoLastPoint (pc_run ops)) = pointsOf RightSide (butlast (chronology ops))
   \<and> (pointHistory (pc_run ops) = [] \<longrightarrow> undoLastPoint (pc_run ops) = pc_run ops)
   \<and> pc_run [AddPoint LeftSide p1, AddPoint RightSide p2, AddPoint LeftSide p3, UndoLast]
       = initialApp\<lparr>pointsL := [p1], pointsR := [p2], pointHistory := [LeftSide, RightSide]\<rparr>"
proof -
  have inv: "length (pointHistory (pc_run ops)) = length (pointsL (pc_run ops)) + length (pointsR (pc_run ops))"
    using pc_run_refines [of ops] length_pointsOf [of "chronology ops"] by simp
  have undo: "pointHistory (undoLastPoint (pc_run ops)) = map fst (butlast (chronology ops))
     \<and> pointsL (undoLastPoint (pc_run ops)) = pointsOf LeftSide (butlast (chronology ops))
     \<and> pointsR (undoLastPoint (pc_run ops)) = pointsOf RightSide (butlast (chronology ops))"
    using pc_run_refines [of "ops @ [UndoLast]"] by (simp add: pc_run_snoc chronology_snoc)
  have noop: "pointHistory (pc_run ops) = [] \<longrightarrow> undoLastPoint (pc_run ops) = pc_run ops"
    by (simp add: undoLastPoint_empty)
  have ex: "pc_run [AddPoint LeftSide p1, AddPoint RightSide p2, AddPoint LeftSide p3, UndoLast]
       = initialApp\<lparr>pointsL := [p1], pointsR := [p2], pointHistory := [LeftSide, RightSide]\<rparr>"
    by (simp add: pc_run_def handleAddPoint_def undoLastPoint_def Let_def initialApp_def)
  from inv undo noop ex show ?thesis by blast
qed

theorem pointCollector_undo_history_witness:
  "pointHistory (pc_run []) = [] \<and> undoLastPoint (pc_run []) = pc_run [] \<and>
   pointsL (undoLastPoint (pc_run
      [AddPoint LeftSide (pt 1 2), AddPoint RightSide (pt 3 4),
       AddPoint LeftSide (pt 5 6)])) = [(pt 1 2)] \<and>
   pointsR (undoLastPoint (pc_run
      [AddPoint LeftSide (pt 1 2), AddPoint RightSide (pt 3 4),
       AddPoint LeftSide (pt 5 6)])) = [(pt 3 4)]"
  using pointCollector_undo_history [of "[]"]
    pointCollector_undo_history [of "[AddPoint LeftSide (pt 1 2), AddPoint RightSide (pt 3 4),
       AddPoint LeftSide (pt 5 6)]"]
  by (simp add: pc_run_def chronology_def pointsOf_def initialApp_def pt_def)

section \<open>Properties of the angle measurement\<close>

lemma atan2_reverse:
  assumes "x \<noteq> 0 \<or> y \<noteq> 0"
  shows "atan2 (- y) (- x) = (if 0 < atan2 y x then atan2 y x - pi else atan2 y x + pi)"
proof -
  have ub: "arctan (y / x) < pi / 2" by (rule arctan_ubound)
  have lb: "- (pi / 2) < arctan (y / x)" by (rule arctan_lbound)
  have p: "0 < pi" by (rule pi_gt_zero)
  consider (a) "0 < x" "0 < y" | (b) "0 < x" "y \<le> 0" | (c) "x < 0" "0 \<le> y" | (d) "x < 0" "y < 0"
    | (e) "x = 0" "0 < y" | (f) "x = 0" "y < 0"
    using assms by linarith
  then show ?thesis
  proof cases
    case a
    then have "0 < y / x" by simp
    then have "0 < arctan (y / x)" by (simp add: zero_less_arctan_iff)
    with a show ?thesis by (simp add: atan2_def)
  next
    case b
    then have "y / x \<le> 0" by (simp add: divide_nonpos_pos)
    then have "arctan (y / x) \<le> 0" by (simp add: arctan_le_zero_iff)
    with b show ?thesis by (simp add: atan2_def)
  next
    case c
    then have v: "atan2 y x = arctan (y / x) + pi" "atan2 (- y) (- x) = arctan (y / x)"
      by (simp_all add: atan2_def)
    have "0 < atan2 y x" using v lb p by linarith
    with v show ?thesis by simp
  next
    case d
    then have "0 < y / x" by (simp add: divide_neg_neg)
    then have q: "0 < arctan (y / x)" by (simp add: zero_less_arctan_iff)
    from d have v: "atan2 y x = arctan (y / x) - pi" "atan2 (- y) (- x) = arctan (y / x)"
      by (simp_all add: atan2_def)
    have "\<not> 0 < atan2 y x" using v ub p by linarith
    with v show ?thesis by simp
  next
    case e
    then have v: "atan2 y x = pi / 2" "atan2 (- y) (- x) = - (pi / 2)"
      by (simp_all add: atan2_def)
    have "0 < atan2 y x" using v p by linarith
    with v show ?thesis by simp
  next
    case f
    then have v: "atan2 y x = - (pi / 2)" "atan2 (- y) (- x) = pi / 2"
      by (simp_all add: atan2_def)
    have "\<not> 0 < atan2 y x" using v p by linarith
    with v show ?thesis by simp
  qed
qed

lemma atan2_range: "- pi < atan2 y x \<and> atan2 y x \<le> pi"
proof -
  have ub: "arctan (y / x) < pi / 2" by (rule arctan_ubound)
  have lb: "- (pi / 2) < arctan (y / x)" by (rule arctan_lbound)
  have p: "0 < pi" by (rule pi_gt_zero)
  consider (a) "0 < x" | (c) "x < 0" "0 \<le> y" | (d) "x < 0" "y < 0"
    | (e) "x = 0" "0 < y" | (f) "x = 0" "y < 0" | (g) "x = 0" "y = 0"
    by linarith
  then show ?thesis
  proof cases
    case a
    then have "atan2 y x = arctan (y / x)" by (simp add: atan2_def)
    then show ?thesis using ub lb p by linarith
  next
    case c
    then have "y / x \<le> 0" by (simp add: divide_nonneg_neg)
    then have "arctan (y / x) \<le> 0" by (simp add: arctan_le_zero_iff)
    moreover from c have "atan2 y x = arctan (y / x) + pi" by (simp add: atan2_def)
    ultimately show ?thesis using lb p by linarith
  next
    case d
    then have "0 < y / x" by (simp add: divide_neg_neg)
    then have "0 < arctan (y / x)" by (simp add: zero_less_arctan_iff)
    moreover from d have "atan2 y x = arctan (y / x) - pi" by (simp add: atan2_def)
    ultimately show ?thesis using ub p by linarith
  next
    case e
    then have "atan2 y x = pi / 2" by (simp add: atan2_def)
    then show ?thesis using p by linarith
  next
    case f
    then have "atan2 y x = - (pi / 2)" by (simp add: atan2_def)
    then show ?thesis using p by linarith
  next
    case g
    then have "atan2 y x = 0" by (simp add: atan2_def)
    then show ?thesis using p by linarith
  qed
qed

lemma calculateAngle_range: "- 180 < calculateAngle p1 p2 \<and> calculateAngle p1 p2 \<le> 180"
proof -
  let ?a = "atan2 (py p2 - py p1) (px p2 - px p1)"
  have r: "- pi < ?a \<and> ?a \<le> pi" by (rule atan2_range)
  have "?a * (180 / pi) \<le> pi * (180 / pi)"
    using r pi_gt_zero by (intro mult_right_mono) simp_all
  moreover have "(- pi) * (180 / pi) < ?a * (180 / pi)"
    using r pi_gt_zero by (intro mult_strict_right_mono) simp_all
  ultimately show ?thesis using pi_gt_zero by (simp add: calculateAngle_def)
qed

lemma calculateAngle_reverse:
  assumes "px p1 \<noteq> px p2 \<or> py p1 \<noteq> py p2"
  shows "calculateAngle p1 p2 =
           (if 0 < calculateAngle p2 p1 then calculateAngle p2 p1 - 180
            else calculateAngle p2 p1 + 180)"
proof -
  let ?x = "px p1 - px p2" and ?y = "py p1 - py p2"
  have nz: "?x \<noteq> 0 \<or> ?y \<noteq> 0" using assms by simp
  have e: "py p2 - py p1 = - ?y" "px p2 - px p1 = - ?x" by simp_all
  have p: "pi \<noteq> 0" using pi_gt_zero by simp
  have rv: "calculateAngle p2 p1 = atan2 ?y ?x * (180 / pi)"
    by (simp add: calculateAngle_def)
  have pos: "0 < calculateAngle p2 p1 \<longleftrightarrow> 0 < atan2 ?y ?x"
    unfolding rv using pi_gt_zero by (simp add: zero_less_mult_iff zero_less_divide_iff)
  have fw: "calculateAngle p1 p2 = atan2 (- ?y) (- ?x) * (180 / pi)"
    unfolding calculateAngle_def e ..
  show ?thesis
  proof (cases "0 < atan2 ?y ?x")
    case True
    then have "atan2 (- ?y) (- ?x) = atan2 ?y ?x - pi"
      using atan2_reverse [OF nz] by simp
    then have "calculateAngle p1 p2 = calculateAngle p2 p1 - 180"
      unfolding fw rv using p by (simp add: field_simps)
    with True pos show ?thesis by simp
  next
    case False
    then have "atan2 (- ?y) (- ?x) = atan2 ?y ?x + pi"
      using atan2_reverse [OF nz] by simp
    then have "calculateAngle p1 p2 = calculateAngle p2 p1 + 180"
      unfolding fw rv using p by (simp add: field_simps)
    with False pos show ?thesis by simp
  qed
qed

text \<open>
  Claim C10. For coincident points the angle measurement is exactly 0.
\<close>

theorem calculateAngle_coincident: "calculateAngle p p = 0"
  by (simp add: calculateAngle_def atan2_def)

text \<open>
  Claim C8, as amended. For two points that differ, the angle from the first to the
  second is congruent modulo 360 to the angle from the second to the first plus 180, and
  lies in the interval from -180 (excluded) to 180 (included).
\<close>

theorem calculateAngle_reversed:
  assumes "px p1 \<noteq> px p2 \<or> py p1 \<noteq> py p2"
  shows "cong360 (calculateAngle p1 p2) (calculateAngle p2 p1 + 180) \<and>
         - 180 < calculateAngle p1 p2 \<and> calculateAngle p1 p2 \<le> 180"
proof -
  have "cong360 (calculateAngle p1 p2) (calculateAngle p2 p1 + 180)"
    using calculateAngle_reverse [OF assms] by (simp add: cong360_def)
  then show ?thesis using calculateAngle_range [of p1 p2] by simp
qed

text \<open>
  Claim C8 as stated fails for coincident points: both angles are 0 there, and 0 is not
  congruent to 180.
\<close>

theorem calculateAngle_reversed_counterexample:
  "\<not> cong360 (calculateAngle (pt 3 4) (pt 3 4))
              (calculateAngle (pt 3 4) (pt 3 4) + 180)"
  by (simp add: calculateAngle_def atan2_def cong360_def pt_def)

theorem calculateAngle_reversed_witness:
  "cong360 (calculateAngle (pt 0 0) (pt 1 0))
           (calculateAngle (pt 1 0) (pt 0 0) + 180) \<and>
   calculateAngle (pt 0 0) (pt 1 0) = 0 \<and>
   calculateAngle (pt 1 0) (pt 0 0) = 180"
  using calculateAngle_reversed [of "pt 0 0" "pt 1 0"]
  by (simp add: calculateAngle_def atan2_def pt_def)

section \<open>Properties of the stage machine\<close>

text \<open>
  Claim C2. With both images loaded, starting the pipeline goes to RESULT when
  \<open>assumeEqualFraming\<close> is set, and the result is then the two sources merged as they
  are, the working pair untouched; otherwise to CROP when \<open>assumeEqualTilt\<close> and
  \<open>assumeEqualZoom\<close> are set, to SCALE when only \<open>assumeEqualTilt\<close> is, and to ROTATE
  in every other case.
\<close>

theorem startProcessing_stage:
  assumes "srcL s = Some sl" and "srcR s = Some sr"
  shows "step (startProcessing s) =
           (if assumeEqualFraming (options s) then RESULT
            else if assumeEqualTilt (options s) \<and> assumeEqualZoom (options s) then CROP
            else if assumeEqualTilt (options s) then SCALE
            else ROTATE)
         \<and> (if assumeEqualFraming (options s)
            then resultCanvas (startProcessing s) = Some (fst (mergeSideBySide (created s) sl sr))
                 \<and> canvasL (startProcessing s) = canvasL s
                 \<and> canvasR (startProcessing s) = canvasR s
            else resultCanvas (startProcessing s) = resultCanvas s)"
  using assms
  by (simp add: startProcessing_def clearPoints_def Let_def split: prod.split)

theorem startProcessing_stage_witness:
  "step (startProcessing (atStage UPLOAD (opts False False False False) [] [])) = ROTATE \<and>
   step (startProcessing (atStage UPLOAD (opts True False False False) [] [])) = SCALE \<and>
   step (startProcessing (atStage UPLOAD (opts False True False False) [] [])) = ROTATE \<and>
   step (startProcessing (atStage UPLOAD (opts True True False False) [] [])) = CROP \<and>
   step (startProcessing (atStage UPLOAD (opts False False True False) [] [])) = RESULT \<and>
   step (startProcessing (atStage UPLOAD (opts True False True False) [] [])) = RESULT \<and>
   step (startProcessing (atStage UPLOAD (opts False True True False) [] [])) = RESULT \<and>
   step (startProcessing (atStage UPLOAD (opts True True True False) [] [])) = RESULT"
  using startProcessing_stage [of "atStage UPLOAD (opts False False False False) [] []" imgL imgR]
    startProcessing_stage [of "atStage UPLOAD (opts True False False False) [] []" imgL imgR]
    startProcessing_stage [of "atStage UPLOAD (opts False True False False) [] []" imgL imgR]
    startProcessing_stage [of "atStage UPLOAD (opts True True False False) [] []" imgL imgR]
    startProcessing_stage [of "atStage UPLOAD (opts False False True False) [] []" imgL imgR]
    startProcessing_stage [of "atStage UPLOAD (opts True False True False) [] []" imgL imgR]
    startProcessing_stage [of "atStage UPLOAD (opts False True True False) [] []" imgL imgR]
    startProcessing_stage [of "atStage UPLOAD (opts True True True False) [] []" imgL imgR]
  by (simp add: atStage_def opts_def initialApp_def)

section \<open>Properties of the viewport\<close>

text \<open>
  Claim C9. For an image and a viewport of positive sizes, fitting sets the scale to
  0.95 times the smaller of the two size ratios and the offset to half of what the
  scaled image leaves free on each axis, and fitting again gives the same state.
\<close>

theorem fitToContainer_fit:
  assumes "0 < width im" and "0 < height im" and "0 < rect_width rect" and "0 < rect_height rect"
  shows "fitToContainer (Some im) (Some rect) v =
           Some (v\<lparr>scale := 0.95 * min (rect_width rect / real_of_int (width im))
                                     (rect_height rect / real_of_int (height im)),
                   offset := \<lparr>px = (rect_width rect - real_of_int (width im) *
                                    (0.95 * min (rect_width rect / real_of_int (width im))
                                                (rect_height rect / real_of_int (height im)))) / 2,
                              py = (rect_height rect - real_of_int (height im) *
                                    (0.95 * min (rect_width rect / real_of_int (width im))
                                                (rect_height rect / real_of_int (height im)))) / 2\<rparr>,
                   initialized := True\<rparr>)
         \<and> Option.bind (fitToContainer (Some im) (Some rect) v) (fitToContainer (Some im) (Some rect))
             = fitToContainer (Some im) (Some rect) v"
  using assms by (simp add: fitToContainer_def Let_def mult.commute)

theorem fitToContainer_fit_witness:
  "fitToContainer (Some imgL) (Some \<lparr>rect_width = 400, rect_height = 200\<rparr>)
      \<lparr>scale = 1, offset = pt 0 0, initialized = False\<rparr>
     = Some \<lparr>scale = 1.9, offset = pt 105 5, initialized = True\<rparr>"
  using fitToContainer_fit [of imgL "\<lparr>rect_width = 400, rect_height = 200\<rparr>"
      "\<lparr>scale = 1, offset = pt 0 0, initialized = False\<rparr>"]
  by (simp add: imgL_def pt_def)

section \<open>Properties of the doubles\<close>

text \<open>The number of bits of an integer between two powers of two.\<close>

lemma bitlen_eqI:
  assumes "2 ^ n \<le> a" and "a < 2 ^ Suc n"
  shows "bitlen a = int n + 1"
proof (rule antisym)
  show "bitlen a \<le> int n + 1"
    using assms(2) by (simp add: bitlen_le_iff_power nat_add_distrib)
  show "int n + 1 \<le> bitlen a"
    using assms(1) by (simp add: bitlen_ge_iff_power nat_add_distrib)
qed

text \<open>
  \<open>binade\<close> is the binary exponent: whatever lies between two neighbouring powers of
  two has the exponent of the lower one, and every nonzero number lies between the power
  for its exponent and the next.
\<close>

lemma binade_at_nonneg:
  assumes "2 ^ n \<le> \<bar>x\<bar>" and "\<bar>x\<bar> < 2 ^ Suc n"
  shows "binade x = int n"
proof -
  have one: "1 \<le> \<bar>x\<bar>"
    using assms(1) one_le_power [of "2::real" n] by linarith
  have "real_of_int (2 ^ n) \<le> \<bar>x\<bar>" using assms(1) by simp
  then have lo: "2 ^ n \<le> \<lfloor>\<bar>x\<bar>\<rfloor>" by (simp only: le_floor_iff)
  have "\<bar>x\<bar> < real_of_int (2 ^ Suc n)" using assms(2) by simp
  then have hi: "\<lfloor>\<bar>x\<bar>\<rfloor> < 2 ^ Suc n" by (simp only: floor_less_iff)
  from bitlen_eqI [OF lo hi] one show ?thesis by (simp add: binade_def)
qed

lemma binade_at_neg:
  assumes "1 / 2 ^ Suc n \<le> \<bar>x\<bar>" and "\<bar>x\<bar> < 1 / 2 ^ n"
  shows "binade x = - int (Suc n)"
proof -
  have pos: "0 < \<bar>x\<bar>"
    using assms(1) by (smt (verit) divide_pos_pos zero_less_power)
  have lt1: "\<not> 1 \<le> \<bar>x\<bar>"
  proof -
    have "(1::real) / 2 ^ n \<le> 1" by (simp add: divide_le_eq)
    with assms(2) show ?thesis by linarith
  qed
  have "1 / \<bar>x\<bar> \<le> 2 ^ Suc n"
    using assms(1) pos by (simp add: field_simps)
  then have "1 / \<bar>x\<bar> \<le> real_of_int (2 ^ Suc n)" by simp
  then have hi: "\<lceil>1 / \<bar>x\<bar>\<rceil> \<le> 2 ^ Suc n" by (simp only: ceiling_le_iff)
  have "2 ^ n < 1 / \<bar>x\<bar>"
    using assms(2) pos by (simp add: field_simps)
  then have "real_of_int (2 ^ n) < 1 / \<bar>x\<bar>" by simp
  then have lo: "2 ^ n < \<lceil>1 / \<bar>x\<bar>\<rceil>" by (simp only: less_ceiling_iff)
  have "bitlen (\<lceil>1 / \<bar>x\<bar>\<rceil> - 1) = int n + 1"
    by (rule bitlen_eqI) (use lo hi in linarith)+
  with lt1 show ?thesis by (simp add: binade_def)
qed

lemma binade_bounds:
  assumes "x \<noteq> 0"
  shows "2 powi binade x \<le> \<bar>x\<bar> \<and> \<bar>x\<bar> < 2 powi (binade x + 1)"
proof (cases "1 \<le> \<bar>x\<bar>")
  case True
  let ?a = "\<lfloor>\<bar>x\<bar>\<rfloor>"
  have a: "0 < ?a" using True by linarith
  have "bitlen ?a \<noteq> 0" using a by (simp add: bitlen_eq_zero_iff)
  then have "1 \<le> bitlen ?a" using bitlen_nonneg [of ?a] by linarith
  define n where "n = nat (bitlen ?a - 1)"
  have n: "bitlen ?a = int (Suc n)" using \<open>1 \<le> bitlen ?a\<close> by (simp add: n_def)
  have b: "2 ^ n \<le> ?a" "?a < 2 ^ Suc n"
    using bitlen_bounds [OF a] n by (simp_all add: nat_add_distrib)
  have e: "binade x = int n" using True n by (simp add: binade_def)
  have lo: "2 ^ n \<le> \<bar>x\<bar>" using b(1) by (simp add: le_floor_iff)
  have hi: "\<bar>x\<bar> < 2 ^ Suc n" using b(2) by (simp add: floor_less_iff)
  have "2 powi (int n + 1) = (2::real) ^ Suc n"
    by (simp add: power_int_add)
  with lo hi e show ?thesis by simp
next
  case False
  have pos: "0 < \<bar>x\<bar>" using assms by simp
  let ?y = "1 / \<bar>x\<bar>"
  let ?c = "\<lceil>?y\<rceil> - 1"
  have y1: "1 < ?y" using False pos by (simp add: field_simps)
  then have c: "0 < ?c" by linarith
  have "bitlen ?c \<noteq> 0" using c by (simp add: bitlen_eq_zero_iff)
  then have "1 \<le> bitlen ?c" using bitlen_nonneg [of ?c] by linarith
  define n where "n = nat (bitlen ?c - 1)"
  have n: "bitlen ?c = int (Suc n)" using \<open>1 \<le> bitlen ?c\<close> by (simp add: n_def)
  have b: "2 ^ n \<le> ?c" "?c < 2 ^ Suc n"
    using bitlen_bounds [OF c] n by (simp_all add: nat_add_distrib)
  have e: "binade x = - int (Suc n)" using False n by (simp add: binade_def)
  have "\<lceil>?y\<rceil> \<le> 2 ^ Suc n" using b(2) by linarith
  then have "?y \<le> 2 ^ Suc n" by (simp add: ceiling_le_iff)
  then have lo: "1 / 2 ^ Suc n \<le> \<bar>x\<bar>" using pos by (simp add: field_simps)
  have "2 ^ n < \<lceil>?y\<rceil>" using b(1) by linarith
  then have "2 ^ n < ?y" by (simp add: less_ceiling_iff)
  then have hi: "\<bar>x\<bar> < 1 / 2 ^ n" using pos by (simp add: field_simps)
  have "2 powi (- int (Suc n)) = inverse ((2::real) powi int (Suc n))"
    by (rule power_int_minus)
  then have p1: "2 powi (- int (Suc n)) = 1 / (2::real) ^ Suc n"
    by (simp only: power_int_of_nat inverse_eq_divide)
  have "2 powi (- int n) = inverse ((2::real) powi int n)"
    by (rule power_int_minus)
  then have "2 powi (- int n) = 1 / (2::real) ^ n"
    by (simp only: power_int_of_nat inverse_eq_divide)
  moreover have "- int (Suc n) + 1 = - int n" by simp
  ultimately have p2: "2 powi (- int (Suc n) + 1) = 1 / (2::real) ^ n"
    by (simp only:)
  show ?thesis unfolding e p1 p2 using lo hi by simp
qed

text \<open>Rounding moves a number by at most one half, and leaves an integer alone.\<close>

lemma roundHalfEven_near: "\<bar>real_of_int (roundHalfEven y) - y\<bar> \<le> 1 / 2"
proof -
  have "real_of_int \<lfloor>y\<rfloor> \<le> y" "y < real_of_int \<lfloor>y\<rfloor> + 1" by linarith+
  then show ?thesis by (simp add: roundHalfEven_def Let_def abs_le_iff)
qed

lemma roundHalfEven_of_int: "roundHalfEven (real_of_int z) = z"
  by (simp add: roundHalfEven_def)

text \<open>
  The double for a given number, from its exponent and its rounded significand; and a
  number with a significand of at most 53 bits is a double already.
\<close>

lemma toDouble_at:
  assumes "x \<noteq> 0" and "binade x = e" and "- 1022 \<le> e"
    and "roundHalfEven (x / 2 powi (e - 52)) = m"
    and "\<bar>real_of_int m * 2 powi (e - 52)\<bar> < 2 ^ 1024"
  shows "toDouble x = Fin (real_of_int m * 2 powi (e - 52))"
proof -
  have "max (binade x) (- 1022) = e" using assms(2,3) by simp
  then show ?thesis
    using assms(1,4,5) by (simp add: toDouble_def Let_def abs_less_iff not_le)
qed

lemma toDouble_exact:
  assumes x: "x = real_of_int m * 2 powi k" and m: "\<bar>m\<bar> < 2 ^ 53"
    and k: "- 1074 \<le> k" "k \<le> 970"
  shows "toDouble x = Fin x"
proof (cases "x = 0")
  case True
  then show ?thesis by (simp add: toDouble_def)
next
  case False
  define e where "e = max (binade x) (- 1022)"
  have absx: "\<bar>x\<bar> = real_of_int \<bar>m\<bar> * 2 powi k"
    unfolding x by (simp add: abs_mult)
  have "real_of_int \<bar>m\<bar> < real_of_int (2 ^ 53)" using m by (simp only: of_int_less_iff)
  then have "real_of_int \<bar>m\<bar> * 2 powi k < 2 ^ 53 * 2 powi k"
    by (intro mult_strict_right_mono) simp_all
  also have "(2::real) ^ 53 * 2 powi k = 2 powi (53 + k)"
    by (simp add: power_int_add)
  finally have up: "\<bar>x\<bar> < 2 powi (53 + k)" unfolding absx .
  have "binade x < 53 + k"
  proof (rule ccontr)
    assume "\<not> binade x < 53 + k"
    then have "(2::real) powi (53 + k) \<le> 2 powi binade x"
      by (intro power_int_increasing) simp_all
    with binade_bounds [OF False] up show False by linarith
  qed
  with k have j: "0 \<le> k - (e - 52)" unfolding e_def by simp
  have sp: "(2::real) powi k = 2 powi (k - (e - 52)) * 2 powi (e - 52)"
    using power_int_add [of "2::real" "k - (e - 52)" "e - 52"] by simp
  have "(2::real) powi (k - (e - 52)) = 2 ^ nat (k - (e - 52))"
    using j by (simp add: power_int_def)
  then have q: "x / 2 powi (e - 52) = real_of_int (m * 2 ^ nat (k - (e - 52)))"
    unfolding x by (subst sp) simp
  have rx: "real_of_int (m * 2 ^ nat (k - (e - 52))) * 2 powi (e - 52) = x"
    using q by (simp add: field_simps)
  have "(2::real) powi (53 + k) \<le> 2 powi 1023"
    using k by (intro power_int_increasing) simp_all
  with up have "\<bar>x\<bar> < 2 powi 1023" by linarith
  moreover have "(2::real) powi 1023 < 2 ^ 1024" by simp
  ultimately have fin: "\<bar>x\<bar> < 2 ^ 1024" by linarith
  show ?thesis
    using False fin
    by (simp add: toDouble_def Let_def e_def [symmetric] q roundHalfEven_of_int rx
        abs_less_iff not_le del: of_int_mult of_int_power)
qed

text \<open>The doubles nearest to 1/1000, 11/10 and 1001/1000, and two products.\<close>

lemma double_1_1000: "toDouble (1 / 1000) = Fin (1152921504606847 / 1152921504606846976)"
proof -
  have b: "binade (1 / 1000) = - 10"
    using binade_at_neg [of 9 "1 / 1000"] by simp
  have r: "roundHalfEven ((1 / 1000) / 2 powi (- 10 - 52)) = 4611686018427388"
    by (simp add: roundHalfEven_def Let_def power_int_minus)
  show ?thesis
    using toDouble_at [OF _ b _ r] by (simp add: power_int_minus)
qed

lemma double_11_10: "toDouble (11 / 10) = Fin (2476979795053773 / 2251799813685248)"
proof -
  have b: "binade (11 / 10) = 0"
    using binade_at_nonneg [of 0 "11 / 10"] by simp
  have r: "roundHalfEven ((11 / 10) / 2 powi (0 - 52)) = 4953959590107546"
    by (simp add: roundHalfEven_def Let_def power_int_minus)
  show ?thesis
    using toDouble_at [OF _ b _ r] by (simp add: power_int_minus)
qed

lemma double_1001_1000: "toDouble (1001 / 1000) = Fin (2254051613498933 / 2251799813685248)"
proof -
  have b: "binade (1001 / 1000) = 0"
    using binade_at_nonneg [of 0 "1001 / 1000"] by simp
  have r: "roundHalfEven ((1001 / 1000) / 2 powi (0 - 52)) = 4508103226997866"
    by (simp add: roundHalfEven_def Let_def power_int_minus)
  show ?thesis
    using toDouble_at [OF _ b _ r] by (simp add: power_int_minus)
qed

lemma double_110: "toDouble (100 * (2476979795053773 / 2251799813685248)) = Fin (7740561859543041 / 70368744177664)"
proof -
  have b: "binade (100 * (2476979795053773 / 2251799813685248)) = 6"
    using binade_at_nonneg [of 6 "100 * (2476979795053773 / 2251799813685248)"] by simp
  have r: "roundHalfEven ((100 * (2476979795053773 / 2251799813685248)) / 2 powi (6 - 52)) = 7740561859543041"
    by (simp add: roundHalfEven_def Let_def power_int_minus)
  show ?thesis
    using toDouble_at [OF _ b _ r] by (simp add: power_int_minus)
qed

lemma double_132: "toDouble (120 * (2476979795053773 / 2251799813685248)) = Fin 132"
proof -
  have b: "binade (120 * (2476979795053773 / 2251799813685248)) = 7"
    using binade_at_nonneg [of 7 "120 * (2476979795053773 / 2251799813685248)"] by simp
  have r: "roundHalfEven ((120 * (2476979795053773 / 2251799813685248)) / 2 powi (7 - 52)) = 4644337115725824"
    by (simp add: roundHalfEven_def Let_def power_int_minus)
  show ?thesis
    using toDouble_at [OF _ b _ r] by (simp add: power_int_minus)
qed

section \<open>Properties of the geometry\<close>

lemma pt_sel: "px (pt x y) = x" "py (pt x y) = y"
  by (simp_all add: pt_def)

lemma canvasSize_in_range: "0 \<le> v \<Longrightarrow> v \<le> 2147483647 \<Longrightarrow> canvasSize dflt v = v"
  by (simp add: canvasSize_def)

lemma canvasSize_ceil:
  "0 \<le> \<lceil>a\<rceil> \<Longrightarrow> \<lceil>a\<rceil> \<le> 2147483647 \<Longrightarrow> canvasSize dflt (integerPart (js_ceil (Fin a))) = \<lceil>a\<rceil>"
  by (simp add: canvasSize_in_range)

lemma cloneCanvas_eq:
  "cloneCanvas d source w h =
     (\<lparr>ident = d, width = canvasSize 300 \<lfloor>w\<rfloor>, height = canvasSize 150 \<lfloor>h\<rfloor>,
       drawn = [DrawImage (ident source) 0 0]\<rparr>, Suc d)"
  by (simp add: cloneCanvas_def createElement_def ctx_call_def setWidth_def setHeight_def)

lemma rotateImage_ident: "ident (fst (rotateImage d source a)) = d \<and> snd (rotateImage d source a) = Suc d"
  by (simp add: rotateImage_def cloneCanvas_eq createElement_def ctx_call_def setWidth_def setHeight_def Let_def)

lemma scaleImage_ident: "ident (fst (scaleImage d source r)) = d \<and> snd (scaleImage d source r) = Suc d"
  by (simp add: scaleImage_def cloneCanvas_eq createElement_def ctx_call_def setWidth_def setHeight_def Let_def)

lemma scaleImage_size:
  assumes "domCanvas source"
  shows "width (fst (scaleImage d source r)) =
     (if js_lt (js_abs (js_sub r (Fin 1))) (toDouble (1 / 1000)) then width source
      else canvasSize 300 (integerPart (js_ceil (js_mul (Fin (real_of_int (width source))) r)))) \<and>
   height (fst (scaleImage d source r)) =
     (if js_lt (js_abs (js_sub r (Fin 1))) (toDouble (1 / 1000)) then height source
      else canvasSize 150 (integerPart (js_ceil (js_mul (Fin (real_of_int (height source))) r))))"
  using assms
  by (simp add: scaleImage_def cloneCanvas_eq createElement_def ctx_call_def setWidth_def
      setHeight_def Let_def domCanvas_def canvasSize_in_range)

lemma createCropped_eq:
  "createCropped cl ct fw fh d source anchor =
     (\<lparr>ident = d, width = canvasSize 300 fw, height = canvasSize 150 fh,
       drawn = [DrawImageSub (ident source)
                 (real_of_int \<lfloor>px anchor - real_of_int cl\<rfloor>)
                 (real_of_int \<lfloor>py anchor - real_of_int ct\<rfloor>)
                 (real_of_int fw) (real_of_int fh) 0 0 (real_of_int fw) (real_of_int fh)]\<rparr>,
      Suc d)"
  by (simp add: createCropped_def createElement_def ctx_call_def setWidth_def setHeight_def)





text \<open>
  With an anchor outside its image, here (200, 50) on the right image of 120 by 100,
  the width computed is negative, and the canvases keep the default width of 300.
\<close>

lemma cropImagesAligned_outside:
  "cropImagesAligned 2 imgL imgR (pt 10 50) (pt 200 50) False =
    ((\<lparr>ident = 2, width = 300, height = 100,
       drawn = [DrawImageSub 0 0 0 (- 70) 100 0 0 (- 70) 100]\<rparr>,
      \<lparr>ident = 3, width = 300, height = 100,
       drawn = [DrawImageSub 1 190 0 (- 70) 100 0 0 (- 70) 100]\<rparr>), 4)"
  by (simp add: cropImagesAligned_def createCropped_eq Let_def imgL_def imgR_def pt_def canvasSize_def)

text \<open>
  Scaling the right example image of 120 by 100: by the ratio of the distances 10 and
  20, which is 1/2; by the ratio of the distances 11 and 10, which is the double nearest
  to 11/10 and makes the height 111, since 100 times that double rounds to a double
  above 110; by the double nearest to 1001/1000, which is closer to 1 than the double
  nearest to 1/1000, so that the image is copied; and by \<open>2 ^ 26\<close>, where both sizes are
  too large for a canvas and the defaults are stored.
\<close>

lemma scale_half:
  "js_abs (js_sub (Fin 0) (Fin 10)) = Fin 10 \<and> js_abs (js_sub (Fin 0) (Fin 20)) = Fin 20
   \<and> js_div (Fin 10) (Fin 20) = Fin (1 / 2)
   \<and> fst (scaleImage 2 imgR (Fin (1 / 2))) =
       \<lparr>ident = 2, width = 60, height = 50, drawn = [DrawImageScaled 1 0 0 (Fin 60) (Fin 50)]\<rparr>"
proof -
  have a: "toDouble (- 10) = Fin (- 10)"
    using toDouble_exact [of "- 10" "- 10" 0] by simp
  have b: "toDouble (- 20) = Fin (- 20)"
    using toDouble_exact [of "- 20" "- 20" 0] by simp
  have c: "toDouble (1 / 2) = Fin (1 / 2)"
    using toDouble_exact [of "1 / 2" 1 "- 1"] by (simp add: power_int_minus)
  have d: "toDouble (- (1 / 2)) = Fin (- (1 / 2))"
    using toDouble_exact [of "- (1 / 2)" "- 1" "- 1"] by (simp add: power_int_minus)
  have e: "toDouble 60 = Fin 60"
    using toDouble_exact [of 60 60 0] by simp
  have f: "toDouble 50 = Fin 50"
    using toDouble_exact [of 50 50 0] by simp
  show ?thesis
    by (simp add: a b c d e f double_1_1000 scaleImage_def imgR_def createElement_def
        ctx_call_def setWidth_def setHeight_def canvasSize_def Let_def)
qed

lemma scale_11_10:
  "js_abs (js_sub (Fin 0) (Fin 11)) = Fin 11
   \<and> js_div (Fin 11) (Fin 10) = Fin (2476979795053773 / 2251799813685248)
   \<and> fst (scaleImage 2 imgR (Fin (2476979795053773 / 2251799813685248))) =
       \<lparr>ident = 2, width = 132, height = 111, drawn = [DrawImageScaled 1 0 0 (Fin 132) (Fin 111)]\<rparr>"
proof -
  have a: "toDouble (- 11) = Fin (- 11)"
    using toDouble_exact [of "- 11" "- 11" 0] by simp
  have d: "toDouble (225179981368525 / 2251799813685248) = Fin (225179981368525 / 2251799813685248)"
    using toDouble_exact [of "225179981368525 / 2251799813685248" 225179981368525 "- 51"]
    by (simp add: power_int_minus)
  have c: "\<lceil>7740561859543041 / (70368744177664::real)\<rceil> = 111"
    by (simp add: ceiling_eq_iff)
  show ?thesis
    using double_110 double_132
    by (simp add: a c d double_11_10 double_1_1000 scaleImage_def imgR_def createElement_def
        ctx_call_def setWidth_def setHeight_def canvasSize_def Let_def)
qed

lemma scale_1001_1000:
  "fst (scaleImage 2 imgR (toDouble (1001 / 1000))) =
       \<lparr>ident = 2, width = 120, height = 100, drawn = [DrawImage 1 0 0]\<rparr>"
proof -
  have d: "toDouble (2251799813685 / 2251799813685248) = Fin (2251799813685 / 2251799813685248)"
    using toDouble_exact [of "2251799813685 / 2251799813685248" 2251799813685 "- 51"]
    by (simp add: power_int_minus)
  show ?thesis
    by (simp add: d double_1001_1000 double_1_1000 scaleImage_def imgR_def cloneCanvas_eq canvasSize_def)
qed

lemma scale_overflow:
  "fst (scaleImage 2 imgR (Fin (2 ^ 26))) =
       \<lparr>ident = 2, width = 300, height = 150,
         drawn = [DrawImageScaled 1 0 0 (Fin 8053063680) (Fin 6710886400)]\<rparr>"
proof -
  have a: "toDouble 67108863 = Fin 67108863"
    using toDouble_exact [of 67108863 67108863 0] by simp
  have b: "toDouble 8053063680 = Fin 8053063680"
    using toDouble_exact [of 8053063680 8053063680 0] by simp
  have c: "toDouble 6710886400 = Fin 6710886400"
    using toDouble_exact [of 6710886400 6710886400 0] by simp
  show ?thesis
    by (simp add: a b c double_1_1000 scaleImage_def imgR_def createElement_def
        ctx_call_def setWidth_def setHeight_def canvasSize_def Let_def)
qed

text \<open>
  The ratio of the distances 1025/16 and 64 is the double 1025/1024, closer to 1 than
  the double nearest to 1/1000, and 120 times this ratio is above 120.
\<close>

lemma scale_close:
  "js_abs (js_sub (Fin 0) (Fin (1025 / 16))) = Fin (1025 / 16)
   \<and> js_abs (js_sub (Fin 0) (Fin 64)) = Fin 64
   \<and> js_div (Fin (1025 / 16)) (Fin 64) = Fin (1025 / 1024)
   \<and> js_lt (js_abs (js_sub (Fin (1025 / 1024)) (Fin 1))) (toDouble (1 / 1000))
   \<and> js_ceil (js_mul (Fin 120) (Fin (1025 / 1024))) = Fin 121"
proof -
  have a: "toDouble (- (1025 / 16)) = Fin (- (1025 / 16))"
    using toDouble_exact [of "- (1025 / 16)" "- 1025" "- 4"] by (simp add: power_int_minus)
  have b: "toDouble (- 64) = Fin (- 64)"
    using toDouble_exact [of "- 64" "- 64" 0] by simp
  have c: "toDouble (1025 / 1024) = Fin (1025 / 1024)"
    using toDouble_exact [of "1025 / 1024" 1025 "- 10"] by (simp add: power_int_minus)
  have d: "toDouble (1 / 1024) = Fin (1 / 1024)"
    using toDouble_exact [of "1 / 1024" 1 "- 10"] by (simp add: power_int_minus)
  have e: "toDouble (15375 / 128) = Fin (15375 / 128)"
    using toDouble_exact [of "15375 / 128" 15375 "- 7"] by (simp add: power_int_minus)
  have f: "\<lceil>15375 / (128::real)\<rceil> = 121"
    by (simp add: ceiling_eq_iff)
  show ?thesis
    by (simp add: a b c d e f double_1_1000)
qed

section \<open>Properties of the stage applications\<close>

text \<open>
  An application that is refused (a canvas is missing, or a side has fewer points than
  the stage needs) changes nothing.
\<close>

lemma apply_refused:
  "canvasL s = None \<or> canvasR s = None \<or> length (pointsL s) < 2 \<or> length (pointsR s) < 2 \<Longrightarrow>
     applyRotation s = s \<and> applyScaling s = s"
  by (auto simp add: applyRotation_def applyScaling_def split: option.split)

lemma applyCropping_refused:
  "canvasL s = None \<or> canvasR s = None \<or> length (pointsL s) < 1 \<or> length (pointsR s) < 1 \<Longrightarrow>
     applyCropping s = s"
  by (auto simp add: applyCropping_def split: option.split)

text \<open>What a rotation that is not refused does to the state.\<close>

lemma applyRotation_eq:
  assumes "canvasL s = Some cL" and "canvasR s = Some cR"
    and "2 \<le> length (pointsL s)" and "2 \<le> length (pointsR s)"
  shows "applyRotation s =
    (let angleL = calculateAngle (pointsL s ! 0) (pointsL s ! 1);
         angleR = calculateAngle (pointsR s ! 0) (pointsR s ! 1)
     in s\<lparr>canvasL := Some (if rotateLeftImage (options s)
                            then fst (rotateImage (created s) cL (angleR - angleL)) else cL),
          canvasR := Some (if rotateLeftImage (options s) then cR
                            else fst (rotateImage (created s) cR (angleL - angleR))),
          created := Suc (created s),
          pointsL := [], pointsR := [], pointHistory := [],
          step := (if assumeEqualZoom (options s) then CROP else SCALE)\<rparr>)"
  using assms
  by (simp add: applyRotation_def Let_def clearPoints_def case_prod_beta rotateImage_ident)

text \<open>What a scaling that is neither refused nor degenerate does to the state.\<close>

lemma applyScaling_eq:
  assumes "canvasL s = Some cL" and "canvasR s = Some cR"
    and "2 \<le> length (pointsL s)" and "2 \<le> length (pointsR s)"
    and "js_abs (js_sub (Fin (py (pointsL s ! 0))) (Fin (py (pointsL s ! 1)))) \<noteq> Fin 0"
    and "js_abs (js_sub (Fin (py (pointsR s ! 0))) (Fin (py (pointsR s ! 1)))) \<noteq> Fin 0"
  shows "applyScaling s =
    (let hL = js_abs (js_sub (Fin (py (pointsL s ! 0))) (Fin (py (pointsL s ! 1))));
         hR = js_abs (js_sub (Fin (py (pointsR s ! 0))) (Fin (py (pointsR s ! 1))));
         ratio = js_div hL hR
     in s\<lparr>canvasL := Some cL, canvasR := Some (fst (scaleImage (created s) cR ratio)),
          created := Suc (created s),
          pointsL := [], pointsR := [], pointHistory := [], step := CROP\<rparr>)"
  using assms
  by (simp add: applyScaling_def Let_def clearPoints_def case_prod_beta scaleImage_ident)

text \<open>Both leave no point and no history entry behind.\<close>

lemma applyRotation_clears:
  assumes "canvasL s = Some cL" and "canvasR s = Some cR"
    and "2 \<le> length (pointsL s)" and "2 \<le> length (pointsR s)"
  shows "pointsL (applyRotation s) = [] \<and> pointsR (applyRotation s) = []
       \<and> pointHistory (applyRotation s) = []"
  using applyRotation_eq [OF assms] by (simp add: Let_def)

lemma applyScaling_clears:
  assumes "canvasL s = Some cL" and "canvasR s = Some cR"
    and "2 \<le> length (pointsL s)" and "2 \<le> length (pointsR s)"
    and "js_abs (js_sub (Fin (py (pointsL s ! 0))) (Fin (py (pointsL s ! 1)))) \<noteq> Fin 0"
    and "js_abs (js_sub (Fin (py (pointsR s ! 0))) (Fin (py (pointsR s ! 1)))) \<noteq> Fin 0"
  shows "pointsL (applyScaling s) = [] \<and> pointsR (applyScaling s) = []
       \<and> pointHistory (applyScaling s) = []"
  using applyScaling_eq [OF assms] by (simp add: Let_def)

text \<open>What a crop that is not refused does to the state.\<close>

lemma applyCropping_eq:
  assumes "canvasL s = Some cL" and "canvasR s = Some cR"
    and "1 \<le> length (pointsL s)" and "1 \<le> length (pointsR s)"
  shows "applyCropping s =
          (let cropped = fst (cropImagesAligned (created s) cL cR (pointsL s ! 0) (pointsR s ! 0)
                               (assumeEqualZoom (options s)));
               d1 = snd (cropImagesAligned (created s) cL cR (pointsL s ! 0) (pointsR s ! 0)
                               (assumeEqualZoom (options s)));
               merged = mergeSideBySide d1 (fst cropped) (snd cropped)
           in s\<lparr>canvasL := Some (fst cropped), canvasR := Some (snd cropped),
                resultCanvas := Some (fst merged), step := RESULT, created := snd merged\<rparr>)"
proof -
  have "\<not> length (pointsL s) < 1" "\<not> length (pointsR s) < 1" using assms by linarith+
  then show ?thesis
    using assms(1,2) unfolding applyCropping_def Let_def case_prod_beta by simp
qed

text \<open>
  Claim C3, at the input where the code departs from it. Applying the crop with one
  point per side stores the cropped pair and goes to RESULT, but the two points and the
  two history entries are still there afterwards: \<open>applyCropping\<close> does not call
  \<open>clearPoints\<close>, which \<open>applyRotation\<close> and \<open>applyScaling\<close> do.
\<close>

theorem applyCropping_keeps_points:
  "step (applyCropping (atStage CROP (opts False False False False) [pt 40 50] [pt 50 50])) = RESULT
   \<and> pointsL (applyCropping (atStage CROP (opts False False False False) [pt 40 50] [pt 50 50])) = [pt 40 50]
   \<and> pointsR (applyCropping (atStage CROP (opts False False False False) [pt 40 50] [pt 50 50])) = [pt 50 50]
   \<and> pointHistory (applyCropping (atStage CROP (opts False False False False) [pt 40 50] [pt 50 50]))
       = [LeftSide, RightSide]"
  by (simp add: applyCropping_def atStage_def initialApp_def opts_def Let_def split: prod.split)

text \<open>
  Claim C4, as amended. With two points or more per side, the rotation stage rotates
  the left canvas by (angle of right - angle of left) when \<open>rotateLeftImage\<close> is set, and
  the right canvas by (angle of left - angle of right) otherwise; the rotated canvas is a
  new object, and the other side stays the very same canvas object: no copy of it is
  made.
\<close>

theorem applyRotation_one_side:
  assumes "canvasL s = Some cL" and "canvasR s = Some cR"
    and "2 \<le> length (pointsL s)" and "2 \<le> length (pointsR s)"
  shows "(let angleL = calculateAngle (pointsL s ! 0) (pointsL s ! 1);
              angleR = calculateAngle (pointsR s ! 0) (pointsR s ! 1)
          in if rotateLeftImage (options s)
             then canvasL (applyRotation s) = Some (fst (rotateImage (created s) cL (angleR - angleL)))
                \<and> map_option ident (canvasL (applyRotation s)) = Some (created s)
                \<and> canvasR (applyRotation s) = Some cR
             else canvasR (applyRotation s) = Some (fst (rotateImage (created s) cR (angleL - angleR)))
                \<and> map_option ident (canvasR (applyRotation s)) = Some (created s)
                \<and> canvasL (applyRotation s) = Some cL)"
  using applyRotation_eq [OF assms] rotateImage_ident
  by (simp add: Let_def)

lemma angle_east: "calculateAngle (pt 0 0) (pt 10 0) = 0"
  by (simp add: calculateAngle_def atan2_def pt_def)

lemma angle_south: "calculateAngle (pt 0 0) (pt 0 10) = 90"
  by (simp add: calculateAngle_def atan2_def pt_def)

theorem applyRotation_one_side_witness:
  "canvasL (applyRotation (atStage ROTATE (opts False False False False) [pt 0 0, pt 10 0] [pt 0 0, pt 0 10]))
      = Some imgL
   \<and> canvasR (applyRotation (atStage ROTATE (opts False False False False) [pt 0 0, pt 10 0] [pt 0 0, pt 0 10]))
      = Some (fst (rotateImage 2 imgR (0 - 90)))
   \<and> canvasL (applyRotation (atStage ROTATE (opts False False False True) [pt 0 0, pt 10 0] [pt 0 0, pt 0 10]))
      = Some (fst (rotateImage 2 imgL (90 - 0)))
   \<and> canvasR (applyRotation (atStage ROTATE (opts False False False True) [pt 0 0, pt 10 0] [pt 0 0, pt 0 10]))
      = Some imgR"
  using applyRotation_one_side [of "atStage ROTATE (opts False False False False) [pt 0 0, pt 10 0] [pt 0 0, pt 0 10]" imgL imgR]
   applyRotation_one_side [of "atStage ROTATE (opts False False False True) [pt 0 0, pt 10 0] [pt 0 0, pt 0 10]" imgL imgR]
  by (simp add: atStage_def initialApp_def opts_def Let_def angle_east angle_south)

text \<open>
  Claim C4 as stated fails: the side that is not rotated is the same object after the
  stage as before, not a new one.
\<close>

theorem applyRotation_one_side_counterexample:
  "canvasL (applyRotation (atStage ROTATE (opts False False False False) [pt 0 0, pt 10 0] [pt 0 0, pt 0 10]))
      = Some imgL
   \<and> \<not> (map_option ident (canvasL (applyRotation
             (atStage ROTATE (opts False False False False) [pt 0 0, pt 10 0] [pt 0 0, pt 0 10])))
         \<noteq> map_option ident (canvasL
             (atStage ROTATE (opts False False False False) [pt 0 0, pt 10 0] [pt 0 0, pt 0 10])))"
  by (simp add: applyRotation_def atStage_def initialApp_def opts_def Let_def clearPoints_def split: prod.split)

text \<open>
  Claim C6. When the two points of either side have the same \<open>y\<close>, applying the scale
  stage raises the alert and changes nothing else: both canvases, both point lists, the
  history and the stage are as before.
\<close>

theorem applyScaling_degenerate:
  assumes "canvasL s = Some cL" and "canvasR s = Some cR"
    and "2 \<le> length (pointsL s)" and "2 \<le> length (pointsR s)"
    and "\<bar>py (pointsL s ! 0) - py (pointsL s ! 1)\<bar> = 0 \<or> \<bar>py (pointsR s ! 0) - py (pointsR s ! 1)\<bar> = 0"
  shows "applyScaling s = s\<lparr>alerts := alerts s @ [''Vertical distance cannot be zero!'']\<rparr>
       \<and> canvasL (applyScaling s) = canvasL s \<and> canvasR (applyScaling s) = canvasR s
       \<and> pointsL (applyScaling s) = pointsL s \<and> pointsR (applyScaling s) = pointsR s
       \<and> pointHistory (applyScaling s) = pointHistory s
       \<and> step (applyScaling s) = step s"
proof -
  have z: "toDouble 0 = Fin 0" by (simp add: toDouble_def)
  have "applyScaling s = s\<lparr>alerts := alerts s @ [''Vertical distance cannot be zero!'']\<rparr>"
    using assms by (auto simp add: applyScaling_def Let_def z)
  then show ?thesis by simp
qed

theorem applyScaling_degenerate_witness:
  "applyScaling (atStage SCALE (opts False False False False) [pt 0 0, pt 0 10] [pt 0 5, pt 0 5])
     = (atStage SCALE (opts False False False False) [pt 0 0, pt 0 10] [pt 0 5, pt 0 5])
         \<lparr>alerts := [''Vertical distance cannot be zero!'']\<rparr>
   \<and> step (applyScaling (atStage SCALE (opts False False False False) [pt 0 0, pt 0 10] [pt 0 5, pt 0 5])) = SCALE"
  using applyScaling_degenerate [of "atStage SCALE (opts False False False False) [pt 0 0, pt 0 10] [pt 0 5, pt 0 5]" imgL imgR]
  by (simp add: atStage_def initialApp_def pt_def)

text \<open>
  Claim C5, as amended. With two points or more per side and nonzero vertical distances,
  the ratio is the left distance over the right distance, computed in doubles; the left
  canvas stays the same object and the right canvas is replaced by a new one, scaled by
  the ratio; the stage becomes CROP. When the ratio is closer to 1 than 0.001, in
  doubles, the new canvas is a copy that measures \<open>w\<close> by \<open>h\<close>, as the source. Otherwise it
  measures \<open>\<lceil>w * ratio\<rceil>\<close> by \<open>\<lceil>h * ratio\<rceil>\<close>, the products computed in doubles and the
  results stored as canvas sizes: they are the sizes whenever both are at most
  2147483647. Left points (0,0)-(0,10) and right points (0,0)-(0,20) give the ratio 0.5
  and a canvas of 60 by 50 for the source of 120 by 100.
\<close>

theorem applyScaling_scaled:
  assumes "canvasL s = Some cL" and "canvasR s = Some cR" and "domCanvas cR"
    and "2 \<le> length (pointsL s)" and "2 \<le> length (pointsR s)"
    and "js_abs (js_sub (Fin (py (pointsL s ! 0))) (Fin (py (pointsL s ! 1)))) \<noteq> Fin 0"
    and "js_abs (js_sub (Fin (py (pointsR s ! 0))) (Fin (py (pointsR s ! 1)))) \<noteq> Fin 0"
  shows "(let hL = js_abs (js_sub (Fin (py (pointsL s ! 0))) (Fin (py (pointsL s ! 1))));
              hR = js_abs (js_sub (Fin (py (pointsR s ! 0))) (Fin (py (pointsR s ! 1))));
              ratio = js_div hL hR;
              scaled = fst (scaleImage (created s) cR ratio);
              close = js_lt (js_abs (js_sub ratio (Fin 1))) (toDouble (1 / 1000));
              w = js_ceil (js_mul (Fin (real_of_int (width cR))) ratio);
              h = js_ceil (js_mul (Fin (real_of_int (height cR))) ratio)
          in canvasL (applyScaling s) = Some cL
           \<and> canvasR (applyScaling s) = Some scaled
           \<and> ident scaled = created s
           \<and> width scaled = (if close then width cR else canvasSize 300 (integerPart w))
           \<and> height scaled = (if close then height cR else canvasSize 150 (integerPart h))
           \<and> (\<forall>a b. \<not> close \<and> w = Fin (real_of_int a) \<and> h = Fin (real_of_int b)
                  \<and> 0 \<le> a \<and> a \<le> 2147483647 \<and> 0 \<le> b \<and> b \<le> 2147483647
                 \<longrightarrow> width scaled = a \<and> height scaled = b)
           \<and> step (applyScaling s) = CROP)"
  using applyScaling_eq [OF assms(1,2,4,5,6,7)] scaleImage_size [OF assms(3)]
    scaleImage_ident
  by (simp add: Let_def canvasSize_in_range)

theorem applyScaling_scaled_witness:
  "canvasL (applyScaling (atStage SCALE (opts False False False False) [pt 0 0, pt 0 10] [pt 0 0, pt 0 20])) = Some imgL
   \<and> canvasR (applyScaling (atStage SCALE (opts False False False False) [pt 0 0, pt 0 10] [pt 0 0, pt 0 20]))
       = Some \<lparr>ident = 2, width = 60, height = 50, drawn = [DrawImageScaled 1 0 0 (Fin 60) (Fin 50)]\<rparr>
   \<and> js_div (js_abs (js_sub (Fin 0) (Fin 10))) (js_abs (js_sub (Fin 0) (Fin 20))) = Fin (1 / 2)
   \<and> step (applyScaling (atStage SCALE (opts False False False False) [pt 0 0, pt 0 10] [pt 0 0, pt 0 20])) = CROP
   \<and> canvasR (applyScaling (atStage SCALE (opts False False False False) [pt 0 0, pt 0 11] [pt 0 0, pt 0 10]))
       = Some \<lparr>ident = 2, width = 132, height = 111, drawn = [DrawImageScaled 1 0 0 (Fin 132) (Fin 111)]\<rparr>"
proof -
  let ?sA = "atStage SCALE (opts False False False False) [pt 0 0, pt 0 10] [pt 0 0, pt 0 20]"
  let ?sB = "atStage SCALE (opts False False False False) [pt 0 0, pt 0 11] [pt 0 0, pt 0 10]"
  have d: "domCanvas imgR" by (simp add: domCanvas_def imgR_def)
  have A: "canvasL ?sA = Some imgL" "canvasR ?sA = Some imgR"
      "2 \<le> length (pointsL ?sA)" "2 \<le> length (pointsR ?sA)"
      "js_abs (js_sub (Fin (py (pointsL ?sA ! 0))) (Fin (py (pointsL ?sA ! 1)))) \<noteq> Fin 0"
      "js_abs (js_sub (Fin (py (pointsR ?sA ! 0))) (Fin (py (pointsR ?sA ! 1)))) \<noteq> Fin 0"
    using scale_half by (simp_all add: atStage_def initialApp_def pt_sel)
  have B: "canvasL ?sB = Some imgL" "canvasR ?sB = Some imgR"
      "2 \<le> length (pointsL ?sB)" "2 \<le> length (pointsR ?sB)"
      "js_abs (js_sub (Fin (py (pointsL ?sB ! 0))) (Fin (py (pointsL ?sB ! 1)))) \<noteq> Fin 0"
      "js_abs (js_sub (Fin (py (pointsR ?sB ! 0))) (Fin (py (pointsR ?sB ! 1)))) \<noteq> Fin 0"
    using scale_half scale_11_10 by (simp_all add: atStage_def initialApp_def pt_sel)
  have rA: "created ?sA = 2" "pointsL ?sA = [pt 0 0, pt 0 10]" "pointsR ?sA = [pt 0 0, pt 0 20]"
    by (simp_all add: atStage_def initialApp_def)
  have rB: "created ?sB = 2" "pointsL ?sB = [pt 0 0, pt 0 11]" "pointsR ?sB = [pt 0 0, pt 0 10]"
    by (simp_all add: atStage_def initialApp_def)
  from applyScaling_scaled [OF A(1,2) d A(3-6)] scale_half
  have "canvasL (applyScaling ?sA) = Some imgL
      \<and> canvasR (applyScaling ?sA)
          = Some \<lparr>ident = 2, width = 60, height = 50, drawn = [DrawImageScaled 1 0 0 (Fin 60) (Fin 50)]\<rparr>
      \<and> step (applyScaling ?sA) = CROP"
    by (simp add: Let_def rA pt_sel)
  moreover from applyScaling_scaled [OF B(1,2) d B(3-6)] scale_half scale_11_10
  have "canvasR (applyScaling ?sB)
          = Some \<lparr>ident = 2, width = 132, height = 111, drawn = [DrawImageScaled 1 0 0 (Fin 132) (Fin 111)]\<rparr>"
    by (simp add: Let_def rB pt_sel)
  ultimately show ?thesis using scale_half by simp
qed

text \<open>
  Claim C5 as stated fails for a ratio close to 1: with left points (0,0)-(0,64.0625)
  and right points (0,0)-(0,64), all inside the example images, the ratio is 1025/1024,
  the right canvas of width 120 is copied at width 120, and \<open>\<lceil>120 * ratio\<rceil>\<close> is 121, in
  doubles as in real arithmetic.
\<close>

theorem applyScaling_scaled_counterexample:
  "map_option width (canvasR (applyScaling
       (atStage SCALE (opts False False False False) [pt 0 0, pt 0 (1025 / 16)] [pt 0 0, pt 0 64]))) = Some 120
   \<and> js_ceil (js_mul (Fin (real_of_int (width imgR)))
        (js_div (js_abs (js_sub (Fin (py (pt 0 0))) (Fin (py (pt 0 (1025 / 16))))))
                (js_abs (js_sub (Fin (py (pt 0 0))) (Fin (py (pt 0 64))))))) = Fin 121
   \<and> \<lceil>real_of_int (width imgR) *
        (\<bar>py (pt 0 0) - py (pt 0 (1025 / 16))\<bar> / \<bar>py (pt 0 0) - py (pt 0 64)\<bar>)\<rceil> = 121
   \<and> map_option width (canvasR (applyScaling
       (atStage SCALE (opts False False False False) [pt 0 0, pt 0 (1025 / 16)] [pt 0 0, pt 0 64])))
       \<noteq> Some 121"
  using scale_close
  by (simp add: applyScaling_def atStage_def initialApp_def pt_def Let_def imgR_def imgL_def
      scaleImage_def cloneCanvas_eq clearPoints_def canvasSize_def ceiling_eq_iff)

end
